theory Spec2Isabelle
  imports Complex_Main
begin

section \<open>Python values and errors\<close>

text \<open>
  The exceptions that the modelled code paths of \<^verbatim>\<open>src/histolab/slide.py\<close> can raise.
  \<open>OpenSlideError\<close> and \<open>FileNotFoundError\<close> carry their message, because the property
  \<^verbatim>\<open>Slide._wsi\<close> re-raises both with a message of its own. \<open>OtherError\<close> stands for any
  other exception of a collaborator (it is passed on unchanged). \<open>EmptyCollectionError\<close> is
  the error kind named by the specification; no statement of the source raises it.
\<close>

datatype error =
    ZeroDivisionError
  | OverflowError
  | TypeError
  | ValueError
  | FileNotFoundError string
  | OpenSlideError string
  | OtherError string
  | EmptyCollectionError

text \<open>
  A finite Python \<^verbatim>\<open>float\<close> (IEEE 754 binary64): \<open>Dyadic m e\<close> denotes the number
  \<open>m * 2 ^ e\<close>.
\<close>

datatype pyfloat = Dyadic int int

text \<open>The values stored in the statistics dictionary of \<^verbatim>\<open>SlideSet.slides_stats\<close>.\<close>

datatype pyval =
    PInt int
  | PFloat pyfloat
  | PStr string
  | PDict "(string \<times> pyval) list"

section \<open>Python 3 arithmetic: true division and \<^verbatim>\<open>math.floor\<close>\<close>

text \<open>
  \<^verbatim>\<open>a / b\<close> on two \<^verbatim>\<open>int\<close>s is true division: the result is the binary64 number
  nearest to the exact quotient, ties going to the even significand; it raises
  \<^verbatim>\<open>ZeroDivisionError\<close> for \<open>b = 0\<close> and \<^verbatim>\<open>OverflowError\<close> when the rounded
  quotient is not a finite binary64 number. The quotient is rounded to an integer
  significand \<open>m\<close> at the exponent \<open>e = max (\<lfloor>log\<^sub>2 (a / b)\<rfloor> - 52) (- 1074)\<close>, which leaves
  \<open>m\<close> 53 bits, or fewer at the exponent \<open>- 1074\<close> of the subnormal numbers; a significand
  rounded up to \<open>2 ^ 53\<close> is the binary64 number \<open>2 ^ 52 * 2 ^ (e + 1)\<close>. The finite
  numbers are those below \<open>2 ^ 1024\<close>.
\<close>

fun bit_length :: "nat \<Rightarrow> nat" where
  "bit_length n = (if n = 0 then 0 else Suc (bit_length (n div 2)))"

declare bit_length.simps [simp del]

text \<open>\<open>round_half_even n d\<close>: the integer nearest to \<open>n / d\<close> for \<open>0 < d\<close>, ties to even.\<close>

definition round_half_even :: "int \<Rightarrow> int \<Rightarrow> int" where
  "round_half_even n d =
     (let q = n div d; r = n mod d
      in if 2 * r < d then q
         else if d < 2 * r then q + 1
         else if even q then q else q + 1)"

text \<open>
  \<open>quotient_exponent a b\<close> is \<open>\<lfloor>log\<^sub>2 (a / b)\<rfloor>\<close> for positive \<open>a\<close> and \<open>b\<close>: the difference
  \<open>d\<close> of the bit lengths when \<open>b * 2 ^ d \<le> a\<close>, and \<open>d - 1\<close> otherwise.
\<close>

definition quotient_exponent :: "int \<Rightarrow> int \<Rightarrow> int" where
  "quotient_exponent a b =
     (let d = int (bit_length (nat a)) - int (bit_length (nat b))
      in if b * 2 ^ nat d \<le> a * 2 ^ nat (- d) then d else d - 1)"

definition int_truediv :: "int \<Rightarrow> int \<Rightarrow> error + pyfloat" where
  "int_truediv a b =
     (if b = 0 then Inl ZeroDivisionError
      else if a = 0 then Inr (Dyadic 0 0)
      else
        let x = \<bar>a\<bar>; y = \<bar>b\<bar>;
            e = max (quotient_exponent x y - 52) (- 1074);
            m = round_half_even (x * 2 ^ nat (- e)) (y * 2 ^ nat e);
            s = (if (a < 0) = (b < 0) then 1 else - 1)
        in if (if 0 \<le> e then 2 ^ 1024 \<le> m * 2 ^ nat e else 2 ^ 1024 * 2 ^ nat (- e) \<le> m)
           then Inl OverflowError
           else Inr (Dyadic (s * m) e))"

text \<open>\<^verbatim>\<open>math.floor(x)\<close> of a finite float: the exact integer floor, as an \<^verbatim>\<open>int\<close>.\<close>

definition math_floor :: "pyfloat \<Rightarrow> int" where
  "math_floor x =
     (case x of Dyadic m e \<Rightarrow> if 0 \<le> e then m * 2 ^ nat e else m div 2 ^ nat (- e))"


section \<open>Python strings and paths\<close>

text \<open>\<^verbatim>\<open>str(i)\<close> of an \<^verbatim>\<open>int\<close>, which is also how an f-string formats it.\<close>

definition digit_char :: "nat \<Rightarrow> char" where
  "digit_char d = ''0123456789'' ! d"

fun str_nat :: "nat \<Rightarrow> string" where
  "str_nat n = (if n < 10 then [digit_char n] else str_nat (n div 10) @ [digit_char (n mod 10)])"

declare str_nat.simps [simp del]

definition str_int :: "int \<Rightarrow> string" where
  "str_int i = (if i < 0 then CHR ''-'' # str_nat (nat (- i)) else str_nat (nat i))"

text \<open>
  \<^verbatim>\<open>s.find(c, start)\<close> and \<^verbatim>\<open>s.rfind(c)\<close> for a one-character \<open>c\<close>: the lowest index
  from \<open>start\<close> on, respectively the highest index, at which \<open>c\<close> stands, and \<open>- 1\<close> when
  there is none.
\<close>

definition str_find :: "string \<Rightarrow> char \<Rightarrow> nat \<Rightarrow> int" where
  "str_find s c start =
     (if c \<in> set (drop start s)
      then int start + int (length (takeWhile (\<lambda>x. x \<noteq> c) (drop start s)))
      else - 1)"

definition str_rfind :: "string \<Rightarrow> char \<Rightarrow> int" where
  "str_rfind s c =
     (if c \<in> set s
      then int (length s) - 1 - int (length (takeWhile (\<lambda>x. x \<noteq> c) (rev s)))
      else - 1)"

text \<open>\<^verbatim>\<open>s.split(".")[0]\<close>: the part of \<open>s\<close> before its first dot (all of \<open>s\<close> without one).\<close>

definition split_dot_first :: "string \<Rightarrow> string" where
  "split_dot_first s = takeWhile (\<lambda>c. c \<noteq> CHR ''.'') s"

text \<open>
  The functions of the standard library's \<^verbatim>\<open>ntpath\<close> that \<^verbatim>\<open>Slide.name\<close> calls
  (\<^verbatim>\<open>basename(p) = split(p)[1]\<close>, and \<^verbatim>\<open>split\<close> starts with \<^verbatim>\<open>splitdrive\<close>), as
  of CPython 3.7. \<open>CHR 0x5C\<close> is the backslash.
\<close>

definition ntpath_splitdrive :: "string \<Rightarrow> string \<times> string" where
  "ntpath_splitdrive p =
     (if 2 \<le> length p then
        let sep = CHR 0x5C;
            normp = map (\<lambda>c. if c = CHR ''/'' then sep else c) p
        in if take 2 normp = [sep, sep] \<and> take 1 (drop 2 normp) \<noteq> [sep] then
             let index = str_find normp sep 2
             in if index = - 1 then ([], p)
                else
                  let index2 = str_find normp sep (nat (index + 1))
                  in if index2 = index + 1 then ([], p)
                     else
                       let index2' = (if index2 = - 1 then int (length p) else index2)
                       in (take (nat index2') p, drop (nat index2') p)
           else if take 1 (drop 1 normp) = '':'' then (take 2 p, drop 2 p)
           else ([], p)
      else ([], p))"

text \<open>
  The tail that \<^verbatim>\<open>ntpath.split\<close> returns: the loop
  \<^verbatim>\<open>while i and p[i-1] not in seps: i -= 1\<close> moves \<open>i\<close> from the end of the path (without
  its drive) down to just after the last slash or backslash, and the tail is \<^verbatim>\<open>p[i:]\<close>.
\<close>

fun ntpath_split_index :: "string \<Rightarrow> nat \<Rightarrow> nat" where
  "ntpath_split_index p 0 = 0"
| "ntpath_split_index p (Suc i) =
     (if p ! i \<noteq> CHR ''/'' \<and> p ! i \<noteq> CHR 0x5C then ntpath_split_index p i else Suc i)"

definition ntpath_basename :: "string \<Rightarrow> string" where
  "ntpath_basename p0 =
     (let p = snd (ntpath_splitdrive p0) in drop (ntpath_split_index p (length p)) p)"

text \<open>
  \<^verbatim>\<open>os.path\<close> is \<^verbatim>\<open>posixpath\<close> (the host is a POSIX system). \<^verbatim>\<open>os.path.join(a, b)\<close>:
\<close>

definition os_path_join :: "string \<Rightarrow> string \<Rightarrow> string" where
  "os_path_join a b =
     (if take 1 b = ''/'' then b
      else if a = [] \<or> last a = CHR ''/'' then a @ b
      else a @ ''/'' @ b)"

text \<open>
  \<^verbatim>\<open>os.path.splitext(p)\<close> (\<^verbatim>\<open>genericpath._splitext\<close> with separator \<^verbatim>\<open>/\<close> and no
  alternative separator). The loop skips the dots that lead the file name;
  \<open>splitext_scan\<close> is True when it finds another character before the last dot.
\<close>

function splitext_scan :: "string \<Rightarrow> nat \<Rightarrow> nat \<Rightarrow> bool" where
  "splitext_scan p filenameIndex dotIndex =
     (if filenameIndex < dotIndex
      then (if p ! filenameIndex \<noteq> CHR ''.'' then True
            else splitext_scan p (filenameIndex + 1) dotIndex)
      else False)"
  by pat_completeness auto
termination
  by (relation "measure (\<lambda>(p, filenameIndex, dotIndex). dotIndex - filenameIndex)") auto

declare splitext_scan.simps [simp del]

definition os_path_splitext :: "string \<Rightarrow> string \<times> string" where
  "os_path_splitext p =
     (let sepIndex = str_rfind p CHR ''/'';
          dotIndex = str_rfind p CHR ''.''
      in if sepIndex < dotIndex \<and> splitext_scan p (nat (sepIndex + 1)) (nat dotIndex)
         then (take (nat dotIndex) p, drop (nat dotIndex) p)
         else (p, []))"

text \<open>\<^verbatim>\<open>os.path.dirname(p)\<close> (\<^verbatim>\<open>posixpath.dirname\<close>).\<close>

definition os_path_dirname :: "string \<Rightarrow> string" where
  "os_path_dirname p =
     (let i = nat (str_rfind p CHR ''/'' + 1);
          head = take i p
      in if head \<noteq> [] \<and> head \<noteq> replicate (length head) CHR ''/''
         then rev (dropWhile (\<lambda>c. c = CHR ''/'') (rev head))
         else head)"


section \<open>The collaborators: containers, directory listing, written files\<close>

text \<open>
  An opened container (\<^verbatim>\<open>openslide.OpenSlide\<close> or \<^verbatim>\<open>openslide.ImageSlide\<close>) with the
  capabilities that \<^verbatim>\<open>Slide\<close> uses. Images are opaque values of a type \<open>'img\<close>.
  \<open>read_resized c scale_factor (new_w, new_h)\<close> stands for the chain of
  \<^verbatim>\<open>Slide._resample\<close>: \<^verbatim>\<open>get_best_level_for_downsample\<close>, \<^verbatim>\<open>read_region\<close> of the
  whole level, \<^verbatim>\<open>convert("RGB")\<close> and \<^verbatim>\<open>resize((new_w, new_h), PIL.Image.BILINEAR)\<close>.
\<close>

record 'img container =
  os_dimensions :: "int \<times> int"
  get_thumbnail :: "int \<times> int \<Rightarrow> error + 'img"
  read_resized :: "int \<Rightarrow> int \<times> int \<Rightarrow> error + 'img"

text \<open>
  The world outside the program: the capabilities of the file system and of OpenSlide,
  and the history of what the program has written. \<open>made_dirs\<close> holds the directories
  that the program has made, \<open>saved\<close> the log of its \<^verbatim>\<open>img.save(path)\<close> calls, the latest
  last. The first two arguments of \<open>os_listdir\<close>, \<open>os_makedirs\<close>, \<open>path_mkdir\<close> and
  \<open>image_save\<close> are this history (the directories made and the paths saved so far): a
  listing or a failure may depend on what was written before.
  \<^item> \<open>os_listdir ds ps p\<close> is the result of \<^verbatim>\<open>os.listdir(p)\<close>;
  \<^item> \<open>os_makedirs ds ps p\<close> is the exception that \<^verbatim>\<open>os.makedirs(p, exist_ok=True)\<close>
    raises, \<open>None\<close> when it returns;
  \<^item> \<open>path_mkdir ds ps p\<close> is the same for \<^verbatim>\<open>pathlib.Path(p).mkdir(exist_ok=True)\<close>;
  \<^item> \<open>image_save ds ps p\<close> is the same for \<^verbatim>\<open>img.save(p)\<close>;
  \<^item> \<open>open_slide\<close> is \<^verbatim>\<open>openslide.open_slide\<close>: the containers are the inputs of the
    program, which it does not write.
\<close>

record 'img world =
  os_listdir :: "string list \<Rightarrow> string list \<Rightarrow> string \<Rightarrow> error + string list"
  open_slide :: "string \<Rightarrow> error + 'img container"
  os_makedirs :: "string list \<Rightarrow> string list \<Rightarrow> string \<Rightarrow> error option"
  path_mkdir :: "string list \<Rightarrow> string list \<Rightarrow> string \<Rightarrow> error option"
  image_save :: "string list \<Rightarrow> string list \<Rightarrow> string \<Rightarrow> error option"
  made_dirs :: "string list"
  saved :: "(string \<times> 'img) list"

text \<open>\<^verbatim>\<open>os.listdir(p)\<close> after what has been written so far.\<close>

definition listdir :: "'img world \<Rightarrow> string \<Rightarrow> error + string list" where
  "listdir w p = os_listdir w (made_dirs w) (map fst (saved w)) p"

text \<open>
  \<^verbatim>\<open>os.makedirs(p, exist_ok=True)\<close>: it raises, or the directory is there afterwards.
\<close>

definition makedirs :: "string \<Rightarrow> 'img world \<Rightarrow> error + 'img world" where
  "makedirs p w =
     (case os_makedirs w (made_dirs w) (map fst (saved w)) p of
        Some e \<Rightarrow> Inl e
      | None \<Rightarrow>
          Inr (if p \<in> set (made_dirs w) then w else w\<lparr>made_dirs := made_dirs w @ [p]\<rparr>))"

text \<open>\<^verbatim>\<open>pathlib.Path(p).mkdir(exist_ok=True)\<close>.\<close>

definition mkdir :: "string \<Rightarrow> 'img world \<Rightarrow> error + 'img world" where
  "mkdir p w =
     (case path_mkdir w (made_dirs w) (map fst (saved w)) p of
        Some e \<Rightarrow> Inl e
      | None \<Rightarrow>
          Inr (if p \<in> set (made_dirs w) then w else w\<lparr>made_dirs := made_dirs w @ [p]\<rparr>))"

text \<open>\<^verbatim>\<open>img.save(p)\<close>: it raises, or the image is saved at \<open>p\<close>.\<close>

definition img_save :: "'img \<Rightarrow> string \<Rightarrow> 'img world \<Rightarrow> error + 'img world" where
  "img_save img p w =
     (case image_save w (made_dirs w) (map fst (saved w)) p of
        Some e \<Rightarrow> Inl e
      | None \<Rightarrow> Inr (w\<lparr>saved := saved w @ [(p, img)]\<rparr>))"

text \<open>Sequencing of two computations that may raise.\<close>

definition then_do :: "error + 'a \<Rightarrow> ('a \<Rightarrow> error + 'b) \<Rightarrow> error + 'b" where
  "then_do r f = (case r of Inl e \<Rightarrow> Inl e | Inr x \<Rightarrow> f x)"

section \<open>\<^verbatim>\<open>class Slide\<close>\<close>

record slide =
  path :: string
  processed_path :: string

definition IMG_EXT :: string where
  "IMG_EXT = ''png''"

definition THUMBNAIL_SIZE :: int where
  "THUMBNAIL_SIZE = 300"

text \<open>
  The property \<^verbatim>\<open>Slide._wsi\<close>: it opens the container on every access and re-raises
  \<^verbatim>\<open>OpenSlideError\<close> and \<^verbatim>\<open>FileNotFoundError\<close> with its own messages.
\<close>

definition wsi :: "slide \<Rightarrow> 'img world \<Rightarrow> error + 'img container" where
  "wsi s w =
     (case open_slide w (path s) of
        Inl (OpenSlideError _) \<Rightarrow>
          Inl (OpenSlideError ''Your wsi has something broken inside, a doctor is needed'')
      | Inl (FileNotFoundError _) \<Rightarrow>
          Inl (FileNotFoundError (''The wsi path resource doesn'' @ [CHR 0x27] @ ''t exist''))
      | Inl e \<Rightarrow> Inl e
      | Inr c \<Rightarrow> Inr c)"

text \<open>The property \<^verbatim>\<open>Slide.dimensions\<close>.\<close>

definition dimensions :: "slide \<Rightarrow> 'img world \<Rightarrow> error + int \<times> int" where
  "dimensions s w = then_do (wsi s w) (\<lambda>c. Inr (os_dimensions c))"

text \<open>The property \<^verbatim>\<open>Slide.name\<close>: \<^verbatim>\<open>ntpath.basename(self._path).split(".")[0]\<close>.\<close>

definition name :: "slide \<Rightarrow> string" where
  "name s = split_dot_first (ntpath_basename (path s))"

text \<open>The property \<^verbatim>\<open>Slide._extension\<close>: \<^verbatim>\<open>os.path.splitext(self._path)[1]\<close>.\<close>

definition extension :: "slide \<Rightarrow> string" where
  "extension s = snd (os_path_splitext (path s))"

text \<open>\<^verbatim>\<open>Slide._resampled_dimensions\<close>, for an \<^verbatim>\<open>int\<close> scale factor.\<close>

definition resampled_dimensions ::
  "slide \<Rightarrow> int \<Rightarrow> 'img world \<Rightarrow> error + int \<times> int \<times> int \<times> int" where
  "resampled_dimensions s scale_factor w =
     then_do (dimensions s w) (\<lambda>(large_w, large_h).
     then_do (int_truediv large_w scale_factor) (\<lambda>qw.
     let new_w = math_floor qw in
     then_do (int_truediv large_h scale_factor) (\<lambda>qh.
     let new_h = math_floor qh in
     Inr (large_w, large_h, new_w, new_h))))"

text \<open>
  \<^verbatim>\<open>Slide._breadcumb\<close>. The four values are \<^verbatim>\<open>int\<close>s; the test
  \<^verbatim>\<open>{large_w, large_h, new_w, new_h} == {None}\<close> compares the set of them with the set
  that holds \<^verbatim>\<open>None\<close> only (\<open>Some i\<close> is the \<^verbatim>\<open>int\<close> \<open>i\<close>, \<open>None\<close> is \<^verbatim>\<open>None\<close>).
\<close>

definition breadcumb :: "slide \<Rightarrow> string \<Rightarrow> int \<Rightarrow> 'img world \<Rightarrow> error + string" where
  "breadcumb s directory_path scale_factor w =
     then_do (resampled_dimensions s scale_factor w) (\<lambda>(large_w, large_h, new_w, new_h).
     if {Some large_w, Some large_h, Some new_w, Some new_h} = {None}
     then Inr (os_path_join directory_path (name s @ ''*.'' @ IMG_EXT))
     else Inr (os_path_join directory_path
            (name s @ ''-'' @ str_int scale_factor @ ''x-'' @ str_int large_w @ ''x''
               @ str_int large_h @ ''-'' @ str_int new_w @ ''x'' @ str_int new_h
               @ ''.'' @ IMG_EXT)))"

text \<open>\<^verbatim>\<open>Slide.scaled_image_path\<close>.\<close>

definition scaled_image_path :: "slide \<Rightarrow> int \<Rightarrow> 'img world \<Rightarrow> error + string" where
  "scaled_image_path s scale_factor w = breadcumb s (processed_path s) scale_factor w"

text \<open>The property \<^verbatim>\<open>Slide.thumbnail_path\<close>.\<close>

definition thumbnail_path :: "slide \<Rightarrow> string" where
  "thumbnail_path s =
     os_path_join (os_path_join (processed_path s) ''thumbnails'') (name s @ ''.'' @ IMG_EXT)"

text \<open>
  \<^verbatim>\<open>Slide._resample\<close>, its image component. Every access to \<^verbatim>\<open>self._wsi\<close> opens the
  same path in the same world, so one \<open>wsi\<close> stands for the three accesses that follow
  \<^verbatim>\<open>_resampled_dimensions\<close>.
\<close>

definition resample :: "slide \<Rightarrow> int \<Rightarrow> 'img world \<Rightarrow> error + 'img" where
  "resample s scale_factor w =
     then_do (resampled_dimensions s scale_factor w) (\<lambda>(large_w, large_h, new_w, new_h).
     then_do (wsi s w) (\<lambda>c.
     read_resized c scale_factor (new_w, new_h)))"

text \<open>
  The methods that write return the result (\<open>Inr ()\<close> for \<^verbatim>\<open>None\<close>, \<open>Inl e\<close> for a raised
  exception) together with the world they leave.
\<close>

definition save_scaled_image ::
  "slide \<Rightarrow> int \<Rightarrow> 'img world \<Rightarrow> (error + unit) \<times> 'img world" where
  "save_scaled_image s scale_factor w =
     (case makedirs (processed_path s) w of
        Inl e \<Rightarrow> (Inl e, w)
      | Inr w1 \<Rightarrow>
          (case resample s scale_factor w1 of
             Inl e \<Rightarrow> (Inl e, w1)
           | Inr img \<Rightarrow>
               (case scaled_image_path s scale_factor w1 of
                  Inl e \<Rightarrow> (Inl e, w1)
                | Inr p \<Rightarrow>
                    (case img_save img p w1 of
                       Inl e \<Rightarrow> (Inl e, w1)
                     | Inr w2 \<Rightarrow> (Inr (), w2)))))"

definition save_thumbnail :: "slide \<Rightarrow> 'img world \<Rightarrow> (error + unit) \<times> 'img world" where
  "save_thumbnail s w =
     (case makedirs (processed_path s) w of
        Inl e \<Rightarrow> (Inl e, w)
      | Inr w1 \<Rightarrow>
          (case then_do (wsi s w1) (\<lambda>c. get_thumbnail c (THUMBNAIL_SIZE, THUMBNAIL_SIZE)) of
             Inl e \<Rightarrow> (Inl e, w1)
           | Inr img \<Rightarrow>
               (let folder = os_path_dirname (thumbnail_path s)
                in case mkdir folder w1 of
                     Inl e \<Rightarrow> (Inl e, w1)
                   | Inr w2 \<Rightarrow>
                       (case img_save img (thumbnail_path s) w2 of
                          Inl e \<Rightarrow> (Inl e, w2)
                        | Inr w3 \<Rightarrow> (Inr (), w3)))))"

text \<open>
  A call \<^verbatim>\<open>slide.save_thumbnail(*args)\<close>: the method is declared as
  \<^verbatim>\<open>def save_thumbnail(self)\<close>, so binding any further positional argument raises
  \<^verbatim>\<open>TypeError\<close> before the body runs.
\<close>

definition call_save_thumbnail ::
  "slide \<Rightarrow> pyval list \<Rightarrow> 'img world \<Rightarrow> (error + unit) \<times> 'img world" where
  "call_save_thumbnail s args w = (if args = [] then save_thumbnail s w else (Inl TypeError, w))"


section \<open>\<^verbatim>\<open>class SlideSet\<close>\<close>

record slideset =
  slides_path :: string
  set_processed_path :: string
  valid_wsi_extensions :: "string list"

text \<open>The property \<^verbatim>\<open>SlideSet.slides\<close>: it lists the directory on every access.\<close>

definition slides :: "slideset \<Rightarrow> 'img world \<Rightarrow> error + slide list" where
  "slides ss w =
     then_do (listdir w (slides_path ss)) (\<lambda>entries.
     Inr [\<lparr>path = os_path_join (slides_path ss) wsi_path,
           processed_path = set_processed_path ss\<rparr>.
          wsi_path \<leftarrow> entries,
          snd (os_path_splitext wsi_path) \<in> set (valid_wsi_extensions ss)])"

text \<open>The property \<^verbatim>\<open>SlideSet.total_slides\<close>.\<close>

definition total_slides :: "slideset \<Rightarrow> 'img world \<Rightarrow> error + int" where
  "total_slides ss w = then_do (slides ss w) (\<lambda>sl. Inr (int (length sl)))"

text \<open>The slice \<^verbatim>\<open>xs[:n]\<close>; a negative \<open>n\<close> counts from the end.\<close>

definition slice_to :: "'a list \<Rightarrow> int \<Rightarrow> 'a list" where
  "slice_to xs n = (if n < 0 then take (length xs - nat (- n)) xs else take (nat n) xs)"

text \<open>A \<^verbatim>\<open>for\<close> loop whose body writes: it stops at the first exception.\<close>

fun for_each ::
  "('a \<Rightarrow> 'img world \<Rightarrow> (error + unit) \<times> 'img world) \<Rightarrow> 'a list \<Rightarrow> 'img world
     \<Rightarrow> (error + unit) \<times> 'img world" where
  "for_each body [] w = (Inr (), w)"
| "for_each body (x # xs) w =
     (case body x w of
        (Inl e, w') \<Rightarrow> (Inl e, w')
      | (Inr u, w') \<Rightarrow> for_each body xs w')"

text \<open>
  \<^verbatim>\<open>SlideSet.save_rescaled_slides\<close>. The directory is listed after the output directory
  has been made; \<^verbatim>\<open>slide.save_scaled_image()\<close> takes the default 32.
\<close>

definition save_rescaled_slides ::
  "slideset \<Rightarrow> int \<Rightarrow> 'img world \<Rightarrow> (error + unit) \<times> 'img world" where
  "save_rescaled_slides ss n w =
     (case makedirs (set_processed_path ss) w of
        Inl e \<Rightarrow> (Inl e, w)
      | Inr w1 \<Rightarrow>
          (case total_slides ss w1 of
             Inl e \<Rightarrow> (Inl e, w1)
           | Inr tot \<Rightarrow>
               (let n' = (if tot < n \<or> n = 0 then tot else n)
                in case slides ss w1 of
                     Inl e \<Rightarrow> (Inl e, w1)
                   | Inr sl \<Rightarrow>
                       for_each (\<lambda>slide. save_scaled_image slide 32) (slice_to sl n') w1)))"

text \<open>
  \<^verbatim>\<open>SlideSet.save_thumbnails(self, scale_factor=32, n=0)\<close>; its loop body is
  \<^verbatim>\<open>slide.save_thumbnail(scale_factor)\<close>.
\<close>

definition save_thumbnails ::
  "slideset \<Rightarrow> int \<Rightarrow> int \<Rightarrow> 'img world \<Rightarrow> (error + unit) \<times> 'img world" where
  "save_thumbnails ss scale_factor n w =
     (case makedirs (set_processed_path ss) w of
        Inl e \<Rightarrow> (Inl e, w)
      | Inr w1 \<Rightarrow>
          (case total_slides ss w1 of
             Inl e \<Rightarrow> (Inl e, w1)
           | Inr tot \<Rightarrow>
               (let n' = (if tot < n \<or> n = 0 then tot else n)
                in case slides ss w1 of
                     Inl e \<Rightarrow> (Inl e, w1)
                   | Inr sl \<Rightarrow>
                       for_each (\<lambda>slide. call_save_thumbnail slide [PInt scale_factor])
                         (slice_to sl n') w1)))"

text \<open>
  The property \<^verbatim>\<open>SlideSet.slides_dimensions\<close>: one dictionary with the keys
  \<^verbatim>\<open>"wsi"\<close>, \<^verbatim>\<open>"width"\<close>, \<^verbatim>\<open>"height"\<close> and \<^verbatim>\<open>"size"\<close> for every slide, in order.
\<close>

record slide_dimensions =
  d_wsi :: string
  d_width :: int
  d_height :: int
  d_size :: int

fun map_raising :: "('a \<Rightarrow> error + 'b) \<Rightarrow> 'a list \<Rightarrow> error + 'b list" where
  "map_raising f [] = Inr []"
| "map_raising f (x # xs) =
     then_do (f x) (\<lambda>y. then_do (map_raising f xs) (\<lambda>ys. Inr (y # ys)))"

definition slides_dimensions :: "slideset \<Rightarrow> 'img world \<Rightarrow> error + slide_dimensions list" where
  "slides_dimensions ss w =
     then_do (slides ss w) (\<lambda>sl.
     map_raising (\<lambda>slide.
       then_do (dimensions slide w) (\<lambda>(wd, ht).
       Inr \<lparr>d_wsi = name slide, d_width = wd, d_height = ht, d_size = wd * ht\<rparr>)) sl)"

text \<open>
  \<^verbatim>\<open>max(xs, key=f)\<close> and \<^verbatim>\<open>min(xs, key=f)\<close>: the first item with the greatest
  (smallest) key; \<^verbatim>\<open>ValueError\<close> on an empty sequence.
\<close>

definition max_by :: "('a \<Rightarrow> int) \<Rightarrow> 'a list \<Rightarrow> error + 'a" where
  "max_by key xs =
     (case xs of
        [] \<Rightarrow> Inl ValueError
      | x # rest \<Rightarrow> Inr (foldl (\<lambda>best y. if key best < key y then y else best) x rest))"

definition min_by :: "('a \<Rightarrow> int) \<Rightarrow> 'a list \<Rightarrow> error + 'a" where
  "min_by key xs =
     (case xs of
        [] \<Rightarrow> Inl ValueError
      | x # rest \<Rightarrow> Inr (foldl (\<lambda>best y. if key y < key best then y else best) x rest))"

definition avg_width_slide :: "slideset \<Rightarrow> 'img world \<Rightarrow> error + pyval" where
  "avg_width_slide ss w =
     then_do (slides_dimensions ss w) (\<lambda>ds.
     then_do (total_slides ss w) (\<lambda>tot.
     then_do (int_truediv (sum_list (map d_width ds)) tot) (\<lambda>x. Inr (PFloat x))))"

definition avg_height_slide :: "slideset \<Rightarrow> 'img world \<Rightarrow> error + pyval" where
  "avg_height_slide ss w =
     then_do (slides_dimensions ss w) (\<lambda>ds.
     then_do (total_slides ss w) (\<lambda>tot.
     then_do (int_truediv (sum_list (map d_height ds)) tot) (\<lambda>x. Inr (PFloat x))))"

definition avg_size_slide :: "slideset \<Rightarrow> 'img world \<Rightarrow> error + pyval" where
  "avg_size_slide ss w =
     then_do (slides_dimensions ss w) (\<lambda>ds.
     then_do (total_slides ss w) (\<lambda>tot.
     then_do (int_truediv (sum_list (map d_size ds)) tot) (\<lambda>x. Inr (PFloat x))))"

definition max_height_slide :: "slideset \<Rightarrow> 'img world \<Rightarrow> error + pyval" where
  "max_height_slide ss w =
     then_do (slides_dimensions ss w) (\<lambda>ds.
     then_do (max_by d_height ds) (\<lambda>max_height.
     Inr (PDict [(''slide'', PStr (d_wsi max_height)), (''height'', PInt (d_height max_height))])))"

definition max_size_slide :: "slideset \<Rightarrow> 'img world \<Rightarrow> error + pyval" where
  "max_size_slide ss w =
     then_do (slides_dimensions ss w) (\<lambda>ds.
     then_do (max_by d_size ds) (\<lambda>max_size.
     Inr (PDict [(''slide'', PStr (d_wsi max_size)), (''size'', PInt (d_size max_size))])))"

definition max_width_slide :: "slideset \<Rightarrow> 'img world \<Rightarrow> error + pyval" where
  "max_width_slide ss w =
     then_do (slides_dimensions ss w) (\<lambda>ds.
     then_do (max_by d_width ds) (\<lambda>max_width.
     Inr (PDict [(''slide'', PStr (d_wsi max_width)), (''width'', PInt (d_width max_width))])))"

definition min_width_slide :: "slideset \<Rightarrow> 'img world \<Rightarrow> error + pyval" where
  "min_width_slide ss w =
     then_do (slides_dimensions ss w) (\<lambda>ds.
     then_do (min_by d_width ds) (\<lambda>min_width.
     Inr (PDict [(''slide'', PStr (d_wsi min_width)), (''width'', PInt (d_width min_width))])))"

definition min_height_slide :: "slideset \<Rightarrow> 'img world \<Rightarrow> error + pyval" where
  "min_height_slide ss w =
     then_do (slides_dimensions ss w) (\<lambda>ds.
     then_do (min_by d_height ds) (\<lambda>min_height.
     Inr (PDict [(''slide'', PStr (d_wsi min_height)), (''height'', PInt (d_height min_height))])))"

definition min_size_slide :: "slideset \<Rightarrow> 'img world \<Rightarrow> error + pyval" where
  "min_size_slide ss w =
     then_do (slides_dimensions ss w) (\<lambda>ds.
     then_do (min_by d_size ds) (\<lambda>min_size.
     Inr (PDict [(''slide'', PStr (d_wsi min_size)), (''height'', PInt (d_size min_size))])))"

text \<open>
  The figure of \<^verbatim>\<open>slides_stats\<close>: the scatter plot of the widths against the heights
  with marker size \<^verbatim>\<open>8 * total_slides\<close>. Its colours are drawn at random
  (\<^verbatim>\<open>np.random.rand\<close>) and are left out.
\<close>

datatype figure = Scatter "int list" "int list" int

text \<open>
  The property \<^verbatim>\<open>SlideSet.slides_stats\<close>. The dictionary display evaluates its values
  in the order written. \<^verbatim>\<open>x, y = zip(*dims)\<close> unpacks two tuples when there is a slide
  and raises \<^verbatim>\<open>ValueError\<close> when there is none. The timer (\<^verbatim>\<open>Time()\<close>,
  \<^verbatim>\<open>elapsed_display\<close>) only prints.
\<close>

definition slides_stats ::
  "slideset \<Rightarrow> 'img world \<Rightarrow> error + (string \<times> pyval) list \<times> figure" where
  "slides_stats ss w =
     then_do (total_slides ss w) (\<lambda>no_of_slides.
     then_do (max_width_slide ss w) (\<lambda>max_width.
     then_do (max_height_slide ss w) (\<lambda>max_height.
     then_do (max_size_slide ss w) (\<lambda>max_size.
     then_do (min_width_slide ss w) (\<lambda>min_width.
     then_do (min_height_slide ss w) (\<lambda>min_height.
     then_do (min_size_slide ss w) (\<lambda>min_size.
     then_do (avg_width_slide ss w) (\<lambda>avg_width.
     then_do (avg_height_slide ss w) (\<lambda>avg_height.
     then_do (avg_size_slide ss w) (\<lambda>avg_size.
     let basic_stats =
           [(''no_of_slides'', PInt no_of_slides),
            (''max_width'', max_width),
            (''max_height'', max_height),
            (''max_size'', max_size),
            (''min_width'', min_width),
            (''min_height'', min_height),
            (''min_size'', min_size),
            (''avg_width'', avg_width),
            (''avg_height'', avg_height),
            (''avg_size'', avg_size)]
     in
     then_do (slides ss w) (\<lambda>sl.
     then_do (map_raising (\<lambda>slide. dimensions slide w) sl) (\<lambda>dims.
     if dims = [] then Inl ValueError
     else
       then_do (total_slides ss w) (\<lambda>tot.
       Inr (basic_stats, Scatter (map fst dims) (map snd dims) (8 * tot)))))))))))))))"


section \<open>Example worlds\<close>

text \<open>
  A container with the given dimensions whose image capabilities succeed; images are
  values of type \<open>unit\<close>.
\<close>

definition example_container :: "int \<times> int \<Rightarrow> unit container" where
  "example_container d =
     \<lparr>os_dimensions = d, get_thumbnail = (\<lambda>box. Inr ()), read_resized = (\<lambda>sf sz. Inr ())\<rparr>"

text \<open>
  The directory \<^verbatim>\<open>slides\<close> holds three entries; \<^verbatim>\<open>a.b.svs\<close> is a slide of 3200 by 1600
  pixels and \<^verbatim>\<open>c.svs\<close> one of 100 by 100 pixels. The output directories lie outside
  \<^verbatim>\<open>slides\<close>, so its listing does not change. \<^verbatim>\<open>os.makedirs\<close> raises
  \<^verbatim>\<open>FileNotFoundError\<close> for the empty path; nothing else fails, and nothing has been
  written yet.
\<close>

definition example_listdir :: "string \<Rightarrow> error + string list" where
  "example_listdir p =
     (if p = ''slides'' then Inr [''a.b.svs'', ''notes.txt'', ''c.svs'']
      else Inl (FileNotFoundError p))"

definition example_open_slide :: "string \<Rightarrow> error + unit container" where
  "example_open_slide p =
     (if p = ''slides/a.b.svs'' then Inr (example_container (3200, 1600))
      else if p = ''slides/c.svs'' then Inr (example_container (100, 100))
      else if p = ''slides/wide.svs'' then Inr (example_container (9007199254740993, 1))
      else Inl (FileNotFoundError p))"

definition example_makedirs :: "string \<Rightarrow> error option" where
  "example_makedirs p = (if p = [] then Some (FileNotFoundError p) else None)"

definition example_world :: "unit world" where
  "example_world =
     \<lparr>os_listdir = (\<lambda>ds ps. example_listdir), open_slide = example_open_slide,
      os_makedirs = (\<lambda>ds ps. example_makedirs), path_mkdir = (\<lambda>ds ps p. None),
      image_save = (\<lambda>ds ps p. None), made_dirs = [], saved = []\<rparr>"

text \<open>The example collection with the empty path as its output directory.\<close>

definition unwritable_set :: slideset where
  "unwritable_set =
     \<lparr>slides_path = ''slides'', set_processed_path = [],
      valid_wsi_extensions = [''.svs'']\<rparr>"

definition example_set :: slideset where
  "example_set =
     \<lparr>slides_path = ''slides'', set_processed_path = ''processed'',
      valid_wsi_extensions = [''.svs'']\<rparr>"

text \<open>The same directory read for \<^verbatim>\<open>.tiff\<close> files: a collection without slides.\<close>

definition empty_set :: slideset where
  "empty_set =
     \<lparr>slides_path = ''slides'', set_processed_path = ''processed'',
      valid_wsi_extensions = [''.tiff'']\<rparr>"

definition slide_ab :: slide where
  "slide_ab = \<lparr>path = ''slides/a.b.svs'', processed_path = ''processed''\<rparr>"

definition slide_c :: slide where
  "slide_c = \<lparr>path = ''slides/c.svs'', processed_path = ''processed''\<rparr>"

text \<open>A slide of \<open>2 ^ 53 + 1\<close> by 1 pixels, and a path that does not exist.\<close>

definition slide_wide :: slide where
  "slide_wide = \<lparr>path = ''slides/wide.svs'', processed_path = ''processed''\<rparr>"

definition slide_missing :: slide where
  "slide_missing = \<lparr>path = ''slides/missing.svs'', processed_path = ''processed''\<rparr>"


section \<open>Arithmetic of true division\<close>

lemma bit_length_upper: "n < 2 ^ bit_length n"
proof (induction n rule: bit_length.induct)
  case (1 n)
  show ?case
  proof (cases "n = 0")
    case True
    then show ?thesis by (simp add: bit_length.simps)
  next
    case False
    with 1 have "n div 2 < 2 ^ bit_length (n div 2)" by simp
    then have "n < 2 * 2 ^ bit_length (n div 2)" by linarith
    with False show ?thesis by (simp add: bit_length.simps[of n])
  qed
qed

lemma bit_length_lower: "0 < n \<Longrightarrow> 2 ^ (bit_length n - 1) \<le> n"
proof (induction n rule: bit_length.induct)
  case (1 n)
  show ?case
  proof (cases "n div 2 = 0")
    case True
    with 1(2) have "n = 1" by linarith
    then show ?thesis by (simp add: bit_length.simps)
  next
    case False
    with 1 have ih: "2 ^ (bit_length (n div 2) - 1) \<le> n div 2" by simp
    from False have pos: "0 < bit_length (n div 2)" by (simp add: bit_length.simps[of "n div 2"])
    have "bit_length n = Suc (bit_length (n div 2))" using 1(2) by (simp add: bit_length.simps[of n])
    then have "2 ^ (bit_length n - 1) = (2::nat) * 2 ^ (bit_length (n div 2) - 1)"
      using pos by (cases "bit_length (n div 2)") simp_all
    also have "\<dots> \<le> 2 * (n div 2)" using ih by simp
    also have "\<dots> \<le> n" by simp
    finally show ?thesis .
  qed
qed

lemma quotient_exponent_lower:
  assumes "0 < a" "0 < b"
  shows "b * 2 ^ nat (quotient_exponent a b) \<le> a * 2 ^ nat (- quotient_exponent a b)"
proof -
  define la where "la = bit_length (nat a)"
  define lb where "lb = bit_length (nat b)"
  define d where "d = int la - int lb"
  have la: "2 ^ (la - 1) \<le> a"
    using bit_length_lower[of "nat a"] assms(1) unfolding la_def
    by (simp add: le_nat_iff)
  have lb: "b < 2 ^ lb"
    using bit_length_upper[of "nat b"] assms(2) unfolding lb_def
    by (simp add: nat_less_iff)
  have lapos: "0 < la" using assms(1) unfolding la_def by (simp add: bit_length.simps[of "nat a"])
  show ?thesis
  proof (cases "b * 2 ^ nat d \<le> a * 2 ^ nat (- d)")
    case True
    then show ?thesis by (simp add: quotient_exponent_def Let_def d_def la_def lb_def)
  next
    case False
    then have qe: "quotient_exponent a b = d - 1"
      by (simp add: quotient_exponent_def Let_def d_def la_def lb_def)
    have "b * 2 ^ nat (d - 1) \<le> a * 2 ^ nat (1 - d)"
    proof (cases "1 \<le> d")
      case True
      then have "lb + nat (d - 1) = la - 1" unfolding d_def by linarith
      then have "(2::int) ^ lb * 2 ^ nat (d - 1) = 2 ^ (la - 1)" by (metis power_add)
      moreover have "b * 2 ^ nat (d - 1) \<le> 2 ^ lb * 2 ^ nat (d - 1)"
        using lb by (simp add: mult_right_mono)
      ultimately have "b * 2 ^ nat (d - 1) \<le> a" using la by linarith
      moreover from True have "nat (1 - d) = 0" by simp
      ultimately show ?thesis by simp
    next
      case False
      then have "(la - 1) + nat (1 - d) = lb" using lapos unfolding d_def by linarith
      then have "(2::int) ^ (la - 1) * 2 ^ nat (1 - d) = 2 ^ lb" by (metis power_add)
      moreover have "2 ^ (la - 1) * 2 ^ nat (1 - d) \<le> a * 2 ^ nat (1 - d)"
        using la by (simp add: mult_right_mono)
      ultimately have "b \<le> a * 2 ^ nat (1 - d)" using lb by linarith
      moreover from False have "nat (d - 1) = 0" by simp
      ultimately show ?thesis by simp
    qed
    then show ?thesis by (simp add: qe)
  qed
qed

lemma int_div_less:
  assumes "0 < b" and "n < c * b"
  shows "n div b < (c::int)"
proof (rule ccontr)
  assume "\<not> n div b < c"
  then have "c \<le> n div b" by simp
  then have "c * b \<le> (n div b) * b" using assms(1) by (simp add: mult_right_mono)
  also have "\<dots> \<le> n"
  proof -
    have "n = (n div b) * b + n mod b" by simp
    moreover have "0 \<le> n mod b" using assms(1) by simp
    ultimately show ?thesis by linarith
  qed
  finally show False using assms(2) by simp
qed

lemma round_half_even_nearest:
  assumes "0 < d"
  shows "2 * \<bar>round_half_even n d * d - n\<bar> \<le> d"
proof -
  have n: "n = (n div d) * d + n mod d" by simp
  have r: "0 \<le> n mod d" "n mod d < d" using assms by simp_all
  have up: "(n div d + 1) * d - n = d - n mod d"
  proof -
    have "(n div d + 1) * d = (n div d) * d + d" by (simp add: algebra_simps)
    with n show ?thesis by linarith
  qed
  have down: "(n div d) * d - n = - (n mod d)" using n by linarith
  show ?thesis
    unfolding round_half_even_def Let_def using r by (auto simp: up down)
qed

lemma round_half_even_cases:
  "round_half_even n d = n div d \<or> (round_half_even n d = n div d + 1 \<and> d \<le> 2 * (n mod d))"
  by (simp add: round_half_even_def Let_def)

lemma round_half_even_scaled:
  assumes a: "0 \<le> a" and b: "0 < b" and P: "0 < P" and bP: "b < 2 * P"
  shows "P * (a div b) \<le> round_half_even (a * P) b"
    and "round_half_even (a * P) b < P * (a div b) + P"
proof -
  define k where "k = a div b"
  define r where "r = a mod b"
  define t where "t = r * P"
  have r: "0 \<le> r" "r < b" using b by (simp_all add: r_def)
  have a_eq: "a = k * b + r" by (simp add: k_def r_def)
  have n_eq: "a * P = (k * P) * b + t" by (simp add: a_eq t_def algebra_simps)
  have t0: "0 \<le> t" using r P by (simp add: t_def)
  have tle: "t \<le> (b - 1) * P" using r P by (simp add: t_def mult_right_mono)
  have ndiv: "(a * P) div b = k * P + t div b" using b by (simp add: n_eq)
  have nmod: "(a * P) mod b = t mod b" by (simp add: n_eq)
  have q0: "0 \<le> t div b" using t0 b by (simp add: pos_imp_zdiv_nonneg_iff)
  have t_eq: "t = (t div b) * b + t mod b" by simp
  have u0: "0 \<le> t mod b" using b by simp
  have "(b - 1) * P < P * b" using P by (simp add: algebra_simps)
  with tle have "t < P * b" by linarith
  with b have qP: "t div b < P" by (rule int_div_less)
  show "P * (a div b) \<le> round_half_even (a * P) b"
    using round_half_even_cases[of "a * P" b] ndiv q0 by (auto simp: k_def algebra_simps)
  show "round_half_even (a * P) b < P * (a div b) + P"
  proof (cases "round_half_even (a * P) b = (a * P) div b")
    case True
    then show ?thesis using ndiv qP by (simp add: k_def algebra_simps)
  next
    case False
    with round_half_even_cases[of "a * P" b]
    have up: "round_half_even (a * P) b = (a * P) div b + 1" and big: "b \<le> 2 * (t mod b)"
      by (simp_all add: nmod)
    have "t div b + 1 < P"
    proof (rule ccontr)
      assume "\<not> t div b + 1 < P"
      with qP have "t div b = P - 1" by linarith
      then have "t = (P - 1) * b + t mod b" using t_eq by simp
      then have "t mod b \<le> (b - 1) * P - (P - 1) * b" using tle by linarith
      also have "\<dots> = b - P" by (simp add: algebra_simps)
      finally show False using big bP by linarith
    qed
    then show ?thesis using up ndiv by (simp add: k_def algebra_simps)
  qed
qed

lemma int_div_le:
  assumes "0 < b" and "n \<le> c * b"
  shows "n div b \<le> (c::int)"
proof -
  have "n < (c + 1) * b" using assms by (simp add: algebra_simps)
  with assms(1) have "n div b < c + 1" by (rule int_div_less)
  then show ?thesis by simp
qed

lemma round_half_even_small:
  assumes a: "0 \<le> a" and a53: "a \<le> 2 ^ 53" and P: "2 ^ 53 \<le> P" and bP: "2 * P \<le> b"
  shows "0 \<le> round_half_even (a * P) b" and "round_half_even (a * P) b < P"
proof -
  have P0: "0 < P" using P by simp
  have b: "0 < b" using P0 bP by simp
  have n0: "0 \<le> a * P" using a P0 by simp
  have q0: "0 \<le> (a * P) div b" using n0 b by (simp add: pos_imp_zdiv_nonneg_iff)
  have "a * P \<le> 2 ^ 53 * P" using a53 P0 by (simp add: mult_right_mono)
  also have "\<dots> \<le> 2 ^ 52 * b" using bP by simp
  finally have "a * P \<le> 2 ^ 52 * b" .
  with b have "(a * P) div b \<le> 2 ^ 52" by (rule int_div_le)
  then have "(a * P) div b + 1 < P" using P by simp
  then show "round_half_even (a * P) b < P"
    using round_half_even_cases[of "a * P" b] by auto
  show "0 \<le> round_half_even (a * P) b"
    using round_half_even_cases[of "a * P" b] q0 by auto
qed

lemma round_half_even_exact:
  assumes P: "0 < P"
  shows "P * (2 ^ 53 div (2 * P)) \<le> round_half_even (2 ^ 53 * P) (2 * P)"
    and "round_half_even (2 ^ 53 * P) (2 * P) < P * (2 ^ 53 div (2 * P)) + P"
proof -
  have n: "(2::int) ^ 53 * P = 2 ^ 52 * (2 * P)" by simp
  have r: "round_half_even (2 ^ 53 * P) (2 * P) = 2 ^ 52"
    unfolding n using P by (simp add: round_half_even_def Let_def)
  have "(2::int) ^ 53 div (2 * P) = (2 * 2 ^ 52) div (2 * P)" by simp
  also have "\<dots> = 2 ^ 52 div P" by (rule div_mult_mult1) simp
  finally have k: "(2::int) ^ 53 div (2 * P) = 2 ^ 52 div P" .
  have split: "(2::int) ^ 52 = P * (2 ^ 52 div P) + 2 ^ 52 mod P" by simp
  have m0: "0 \<le> (2::int) ^ 52 mod P" and m1: "(2::int) ^ 52 mod P < P" using P by simp_all
  show "P * (2 ^ 53 div (2 * P)) \<le> round_half_even (2 ^ 53 * P) (2 * P)"
    unfolding r k using split m0 by linarith
  show "round_half_even (2 ^ 53 * P) (2 * P) < P * (2 ^ 53 div (2 * P)) + P"
    unfolding r k using split m1 by linarith
qed

lemma int_div_unique_bounds:
  assumes "0 < P" and "P * k \<le> m" and "m < P * k + P"
  shows "m div P = (k::int)"
proof -
  have "m = k * P + (m - P * k)" by (simp add: algebra_simps)
  moreover have "0 \<le> m - P * k" "m - P * k < P" using assms by simp_all
  ultimately show ?thesis
    by (metis div_pos_pos_trivial add.right_neutral div_mult_self3 assms(1) less_irrefl)
qed

lemma quotient_exponent_le_52:
  assumes "0 < a" "a \<le> 2 ^ 53" "0 < b" and "a < 2 ^ 53 \<or> 2 \<le> b"
  shows "quotient_exponent a b \<le> 52"
proof (rule ccontr)
  assume "\<not> quotient_exponent a b \<le> 52"
  then have big: "53 \<le> nat (quotient_exponent a b)" and "nat (- quotient_exponent a b) = 0"
    by simp_all
  with quotient_exponent_lower[OF assms(1,3)]
  have le: "b * 2 ^ nat (quotient_exponent a b) \<le> a" by simp
  have p: "(2::int) ^ 53 \<le> 2 ^ nat (quotient_exponent a b)"
    using big by (intro power_increasing) simp_all
  from assms(4) show False
  proof
    assume "a < 2 ^ 53"
    moreover have "2 ^ nat (quotient_exponent a b) \<le> b * 2 ^ nat (quotient_exponent a b)"
      using assms(3) by simp
    ultimately show False using le p by linarith
  next
    assume "2 \<le> b"
    then have "2 * 2 ^ nat (quotient_exponent a b) \<le> b * 2 ^ nat (quotient_exponent a b)"
      by (simp add: mult_right_mono)
    moreover have "(0::int) < 2 ^ nat (quotient_exponent a b)" by simp
    ultimately show False using le p assms(2) by linarith
  qed
qed

lemma unclamped_divisor_bound:
  assumes a: "0 < a" "a < 2 ^ 53" and b: "0 < b"
    and q: "q = quotient_exponent a b" and q52: "q \<le> 52"
  shows "b < 2 * 2 ^ nat (52 - q)"
proof -
  have low: "b * 2 ^ nat q \<le> a * 2 ^ nat (- q)"
    using quotient_exponent_lower[OF a(1) b] by (simp add: q)
  have "a * 2 ^ nat (- q) < 2 ^ 53 * 2 ^ nat (- q)"
    using a(2) by (simp add: mult_strict_right_mono)
  with low have lt: "b * 2 ^ nat q < 2 ^ 53 * 2 ^ nat (- q)" by linarith
  have two: "(2::int) * 2 ^ nat (52 - q) = 2 ^ nat (53 - q)"
  proof -
    have "nat (53 - q) = Suc (nat (52 - q))" using q52 by linarith
    then show ?thesis by simp
  qed
  show ?thesis
  proof (cases "0 \<le> q")
    case True
    then have "nat (53 - q) + nat q = 53" using q52 by linarith
    then have "(2::int) ^ nat (53 - q) * 2 ^ nat q = 2 ^ 53" by (metis power_add)
    moreover from True have "nat (- q) = 0" by simp
    ultimately have "b * 2 ^ nat q < 2 ^ nat (53 - q) * 2 ^ nat q" using lt by simp
    then have "b < 2 ^ nat (53 - q)" by (simp add: mult_less_cancel_right)
    then show ?thesis by (simp only: two)
  next
    case False
    then have "53 + nat (- q) = nat (53 - q)" by linarith
    then have "(2::int) ^ 53 * 2 ^ nat (- q) = 2 ^ nat (53 - q)" by (metis power_add)
    moreover from False have "nat q = 0" by simp
    ultimately have "b < 2 ^ nat (53 - q)" using lt by simp
    then show ?thesis by (simp only: two)
  qed
qed


lemma unclamped_divisor_le:
  assumes a: "0 < a" "a \<le> 2 ^ 53" and b: "0 < b"
    and q: "q = quotient_exponent a b" and q52: "q \<le> 52"
  shows "b \<le> 2 * 2 ^ nat (52 - q)"
proof -
  have low: "b * 2 ^ nat q \<le> a * 2 ^ nat (- q)"
    using quotient_exponent_lower[OF a(1) b] by (simp add: q)
  have "a * 2 ^ nat (- q) \<le> 2 ^ 53 * 2 ^ nat (- q)"
    using a(2) by (simp add: mult_right_mono)
  with low have lt: "b * 2 ^ nat q \<le> 2 ^ 53 * 2 ^ nat (- q)" by linarith
  have two: "(2::int) * 2 ^ nat (52 - q) = 2 ^ nat (53 - q)"
  proof -
    have "nat (53 - q) = Suc (nat (52 - q))" using q52 by linarith
    then show ?thesis by simp
  qed
  show ?thesis
  proof (cases "0 \<le> q")
    case True
    then have "nat (53 - q) + nat q = 53" using q52 by linarith
    then have "(2::int) ^ nat (53 - q) * 2 ^ nat q = 2 ^ 53" by (metis power_add)
    moreover from True have "nat (- q) = 0" by simp
    ultimately have "b * 2 ^ nat q \<le> 2 ^ nat (53 - q) * 2 ^ nat q" using lt by simp
    then have "b \<le> 2 ^ nat (53 - q)" by (simp add: mult_le_cancel_right)
    then show ?thesis by (simp only: two)
  next
    case False
    then have "53 + nat (- q) = nat (53 - q)" by linarith
    then have "(2::int) ^ 53 * 2 ^ nat (- q) = 2 ^ nat (53 - q)" by (metis power_add)
    moreover from False have "nat q = 0" by simp
    ultimately have "b \<le> 2 ^ nat (53 - q)" using lt by simp
    then show ?thesis by (simp only: two)
  qed
qed

lemma int_truediv_value:
  assumes a: "0 < a" and b: "0 < b"
    and q: "quotient_exponent a b = q"
    and e: "e = max (q - 52) (- 1074)" and e900: "e \<le> 900"
    and m: "round_half_even (a * 2 ^ nat (- e)) (b * 2 ^ nat e) = m" and m54: "m < 2 ^ 54"
  shows "int_truediv a b = Inr (Dyadic m e)"
proof -
  have fin: "\<not> (if 0 \<le> e then 2 ^ 1024 \<le> m * 2 ^ nat e else 2 ^ 1024 * 2 ^ nat (- e) \<le> m)"
  proof (cases "0 \<le> e")
    case True
    have "m * 2 ^ nat e < 2 ^ 54 * 2 ^ nat e" using m54 by (simp add: mult_strict_right_mono)
    also have "\<dots> = 2 ^ (54 + nat e)" by (simp add: power_add)
    also have "\<dots> \<le> (2::int) ^ 1024" using e900 by (intro power_increasing) simp_all
    finally show ?thesis using True by simp
  next
    case False
    have "m < 2 ^ 54" by (rule m54)
    also have "(2::int) ^ 54 \<le> 2 ^ 1024" by (intro power_increasing) simp_all
    also have "\<dots> \<le> 2 ^ 1024 * 2 ^ nat (- e)" by simp
    finally show ?thesis using False by simp
  qed
  have abs: "\<bar>a\<bar> = a" "\<bar>b\<bar> = b" using a b by simp_all
  have sgn: "(a < 0) = (b < 0)" using a b by simp
  have nz: "a \<noteq> 0" "b \<noteq> 0" using a b by simp_all
  show ?thesis
    unfolding int_truediv_def Let_def abs q e[symmetric] m
    using fin nz sgn by simp
qed

lemma pow53_truediv: "int_truediv 9007199254740992 1 = Inr (Dyadic 4503599627370496 1)"
  by (rule int_truediv_value[where q = 53])
     (simp_all add: quotient_exponent_def bit_length.simps round_half_even_def Let_def)

lemma floor_truediv:
  assumes a0: "0 \<le> a" and a53: "a \<le> 2 ^ 53" and b: "0 < b"
  shows "\<exists>x. int_truediv a b = Inr x \<and> math_floor x = a div b"
proof (cases "a = 0 \<or> (a = 2 ^ 53 \<and> b = 1)")
  case True
  then show ?thesis
  proof
    assume "a = 0"
    then show ?thesis using b by (simp add: int_truediv_def math_floor_def)
  next
    assume "a = 2 ^ 53 \<and> b = 1"
    then show ?thesis by (simp add: pow53_truediv math_floor_def)
  qed
next
  case False
  with a0 a53 b have apos: "0 < a" and side: "a < 2 ^ 53 \<or> 2 \<le> b" by auto
  define q where "q = quotient_exponent a b"
  define e where "e = max (q - 52) (- 1074)"
  define P :: int where "P = 2 ^ nat (- e)"
  define m where "m = round_half_even (a * P) b"
  define k where "k = a div b"
  have q52: "q \<le> 52" unfolding q_def using apos a53 b side by (rule quotient_exponent_le_52)
  then have e0: "e \<le> 0" and e1074: "- 1074 \<le> e" by (simp_all add: e_def)
  have P0: "0 < P" by (simp add: P_def)
  have k0: "0 \<le> k" using a0 b by (simp add: k_def pos_imp_zdiv_nonneg_iff)
  have ka: "k \<le> a" using a0 b unfolding k_def
    by (metis zdiv_mono2 div_by_1 int_one_le_iff_zero_less zero_less_one)
  have bounds: "P * k \<le> m \<and> m < P * k + P"
  proof (cases "b < 2 * P")
    case True
    show ?thesis
      using round_half_even_scaled[OF a0 b P0 True] by (simp add: m_def k_def)
  next
    case False
    then have bP: "2 * P \<le> b" by simp
    show ?thesis
    proof (cases "e = - 1074")
      case True
      then have "P = 2 ^ 1074" by (simp add: P_def)
      then have P53: "2 ^ 53 \<le> P" by simp
      have "a < b" using a53 P53 bP P0 by linarith
      then have "k = 0" using a0 by (simp add: k_def div_pos_pos_trivial)
      with round_half_even_small[OF a0 a53 P53 bP] show ?thesis by (simp add: m_def)
    next
      case unclamped: False
      then have "e = q - 52" by (simp add: e_def max_def split: if_splits)
      then have Pq: "P = 2 ^ nat (52 - q)" by (simp add: P_def)
      have "b \<le> 2 * P"
        using unclamped_divisor_le[OF apos a53 b q_def q52] by (simp add: Pq)
      with bP have b2P: "b = 2 * P" by simp
      have "\<not> a < 2 ^ 53"
        using unclamped_divisor_bound[OF apos _ b q_def q52] b2P by (auto simp: Pq)
      with a53 have "a = 2 ^ 53" by simp
      with round_half_even_exact[OF P0] b2P show ?thesis by (simp add: m_def k_def)
    qed
  qed
  then have floor_eq: "m div P = k" using P0 by (simp add: int_div_unique_bounds)
  have "m < P * (k + 1)" using bounds by (simp add: algebra_simps)
  also have "P * (k + 1) \<le> P * (2 ^ 53 + 1)" using ka a53 P0 by (simp add: mult_left_mono)
  also have "\<dots> < 2 ^ 1024 * P" using P0 by simp
  finally have no_overflow: "\<not> 2 ^ 1024 * P \<le> m" by simp
  have abs: "\<bar>a\<bar> = a" "\<bar>b\<bar> = b" using a0 b by simp_all
  have ne: "nat e = 0" using e0 by simp
  have res: "int_truediv a b = Inr (Dyadic m e)"
  proof (cases "0 \<le> e")
    case True
    with e0 have ez: "e = 0" by simp
    then have "P = 1" by (simp add: P_def)
    with no_overflow have "\<not> 2 ^ 1024 \<le> m" by simp
    then show ?thesis
      using False b apos ez
      unfolding int_truediv_def Let_def abs q_def[symmetric] e_def[symmetric] ne
      by (simp add: m_def \<open>P = 1\<close>)
  next
    case neg: False
    then show ?thesis
      using False b apos no_overflow
      unfolding int_truediv_def Let_def abs q_def[symmetric] e_def[symmetric] ne
      by (simp add: m_def P_def)
  qed
  have "math_floor (Dyadic m e) = k"
  proof (cases "0 \<le> e")
    case True
    with e0 have "e = 0" by simp
    then have "P = 1" by (simp add: P_def)
    with floor_eq show ?thesis using \<open>e = 0\<close> by (simp add: math_floor_def)
  next
    case False
    with floor_eq show ?thesis by (simp add: math_floor_def P_def)
  qed
  with res show ?thesis by (simp add: k_def)
qed

section \<open>Paths, frames and examples\<close>

subsection \<open>Paths\<close>

lemma ntpath_split_index_le: "ntpath_split_index p i \<le> i"
  by (induction i) auto

lemma ntpath_split_index_tail:
  "i \<le> length p \<Longrightarrow> CHR ''/'' \<notin> set (drop (ntpath_split_index p i) (take i p))"
proof (induction i)
  case 0
  then show ?case by simp
next
  case (Suc i)
  then have i: "i < length p" by simp
  show ?case
  proof (cases "p ! i \<noteq> CHR ''/'' \<and> p ! i \<noteq> CHR 0x5C")
    case True
    have "drop (ntpath_split_index p i) (take (Suc i) p)
            = drop (ntpath_split_index p i) (take i p) @ [p ! i]"
      using i ntpath_split_index_le[of p i] by (simp add: take_Suc_conv_app_nth)
    with True Suc show ?thesis by auto
  next
    case False
    then show ?thesis using i by auto
  qed
qed

lemma ntpath_basename_no_slash: "CHR ''/'' \<notin> set (ntpath_basename p)"
  using ntpath_split_index_tail[of "length (snd (ntpath_splitdrive p))" "snd (ntpath_splitdrive p)"]
  by (simp add: ntpath_basename_def Let_def)

lemma name_no_slash: "CHR ''/'' \<notin> set (name s)"
  using ntpath_basename_no_slash[of "path s"] set_takeWhileD[of "CHR ''/''"]
  by (auto simp: name_def split_dot_first_def)

lemma os_path_join_relative:
  assumes "take 1 b \<noteq> ''/''"
  shows "os_path_join a b = (if a = [] \<or> last a = CHR ''/'' then a else a @ ''/'') @ b"
  using assms by (simp add: os_path_join_def)

lemma take1_name_append: "c \<noteq> CHR ''/'' \<Longrightarrow> take 1 (name s @ c # r) \<noteq> ''/''"
  using name_no_slash[of s] by (cases "name s") auto

lemma take1_no_slash: "CHR ''/'' \<notin> set b \<Longrightarrow> take 1 b \<noteq> ''/''"
  by (cases b) auto

subsection \<open>What the reading functions depend on\<close>

lemma wsi_cong:
  assumes "open_slide w' = open_slide w"
  shows "wsi s w' = wsi s w"
  unfolding wsi_def assms by (rule refl)

lemma dimensions_cong:
  assumes "open_slide w' = open_slide w"
  shows "dimensions s w' = dimensions s w"
  unfolding dimensions_def wsi_cong[OF assms] by (rule refl)

lemma resampled_dimensions_cong:
  assumes "open_slide w' = open_slide w"
  shows "resampled_dimensions s sf w' = resampled_dimensions s sf w"
  unfolding resampled_dimensions_def dimensions_cong[OF assms] by (rule refl)

lemma scaled_image_path_cong:
  assumes "open_slide w' = open_slide w"
  shows "scaled_image_path s sf w' = scaled_image_path s sf w"
  unfolding scaled_image_path_def breadcumb_def resampled_dimensions_cong[OF assms]
  by (rule refl)


lemma slides_cong:
  assumes "listdir w' = listdir w"
  shows "slides ss w' = slides ss w"
  unfolding slides_def assms by (rule refl)

lemma total_slides_cong:
  assumes "listdir w' = listdir w"
  shows "total_slides ss w' = total_slides ss w"
  unfolding total_slides_def slides_cong[OF assms] by (rule refl)

lemma makedirs_reads:
  assumes "makedirs p w = Inr w'"
  shows "open_slide w' = open_slide w" and "saved w' = saved w"
  using assms by (auto simp: makedirs_def split: option.splits if_splits)

lemma mkdir_reads:
  assumes "mkdir p w = Inr w'"
  shows "open_slide w' = open_slide w" and "saved w' = saved w"
  using assms by (auto simp: mkdir_def split: option.splits if_splits)

lemma img_save_reads:
  assumes "img_save i p w = Inr w'"
  shows "open_slide w' = open_slide w" and "saved w' = saved w @ [(p, i)]"
  using assms by (auto simp: img_save_def split: option.splits)

lemma save_scaled_image_open_slide:
  "open_slide (snd (save_scaled_image s sf w)) = open_slide w"
  by (auto simp: save_scaled_image_def makedirs_reads img_save_reads split: sum.splits)

subsection \<open>The resampled dimensions and the path\<close>

lemma resampled_dimensions_div:
  assumes "dimensions s w = Inr (large_w, large_h)" and "0 < scale_factor"
    and "0 \<le> large_w" "large_w \<le> 2 ^ 53" and "0 \<le> large_h" "large_h \<le> 2 ^ 53"
  shows "resampled_dimensions s scale_factor w
           = Inr (large_w, large_h, large_w div scale_factor, large_h div scale_factor)"
proof -
  obtain qw where qw: "int_truediv large_w scale_factor = Inr qw"
    "math_floor qw = large_w div scale_factor"
    using floor_truediv[OF assms(3,4,2)] by blast
  obtain qh where qh: "int_truediv large_h scale_factor = Inr qh"
    "math_floor qh = large_h div scale_factor"
    using floor_truediv[OF assms(5,6,2)] by blast
  show ?thesis
    by (simp add: resampled_dimensions_def then_do_def assms(1) qw qh)
qed

lemma not_all_None: "{Some (a::int), Some b, Some c, Some d} \<noteq> {None}"
  by auto

lemma scaled_image_path_full:
  assumes "resampled_dimensions s scale_factor w = Inr (large_w, large_h, new_w, new_h)"
  shows "scaled_image_path s scale_factor w
           = Inr (os_path_join (processed_path s)
               (name s @ ''-'' @ str_int scale_factor @ ''x-'' @ str_int large_w @ ''x''
                  @ str_int large_h @ ''-'' @ str_int new_w @ ''x'' @ str_int new_h @ ''.png''))"
  by (simp add: scaled_image_path_def breadcumb_def then_do_def assms not_all_None IMG_EXT_def)

lemma scaled_image_path_raises:
  assumes "resampled_dimensions s scale_factor w = Inl e"
  shows "scaled_image_path s scale_factor w = Inl e"
  by (simp add: scaled_image_path_def breadcumb_def then_do_def assms)

lemma str_int_values:
  "str_int 32 = ''32''" "str_int 3200 = ''3200''" "str_int 1600 = ''1600''"
  "str_int 100 = ''100''" "str_int 50 = ''50''" "str_int 0 = ''0''" "str_int 5000 = ''5000''"
  "str_int 3 = ''3''"
  by (simp_all add: str_int_def str_nat.simps digit_char_def)

lemma example_dimensions:
  "dimensions slide_ab example_world = Inr (3200, 1600)"
  "dimensions slide_c example_world = Inr (100, 100)"
  "dimensions slide_wide example_world = Inr (9007199254740993, 1)"
  by (simp_all add: dimensions_def wsi_def then_do_def example_world_def example_open_slide_def
      example_container_def slide_ab_def slide_c_def slide_wide_def)

lemma example_names: "name slide_ab = ''a''" "name slide_c = ''c''"
  by code_simp+

lemma example_missing:
  "wsi slide_missing example_world
     = Inl (FileNotFoundError (''The wsi path resource doesn'' @ [CHR 0x27] @ ''t exist''))"
  by (simp add: wsi_def slide_missing_def example_world_def example_open_slide_def)

section \<open>The claims about \<^verbatim>\<open>Slide\<close>\<close>

text \<open>
  Claim C1, as amended. For every positive integer scale factor and every pair of
  dimensions \<open>(w, h)\<close> read from the container with \<open>0 \<le> w, h \<le> 2 ^ 53\<close>,
  \<^verbatim>\<open>Slide._resampled_dimensions\<close> returns exactly
  \<open>(w, h, \<lfloor>w / scale_factor\<rfloor>, \<lfloor>h / scale_factor\<rfloor>)\<close>; a scaled width or height of 0
  is returned like any other value. The bound is there because the code divides in
  floating point (\<^verbatim>\<open>math.floor(large_w / scale_factor)\<close>): up to \<open>2 ^ 53\<close> the
  rounding of the quotient never reaches the next integer.
\<close>

theorem resampled_dimensions_floor:
  assumes "dimensions s w = Inr (large_w, large_h)" and "0 < scale_factor"
    and "0 \<le> large_w" "large_w \<le> 2 ^ 53" and "0 \<le> large_h" "large_h \<le> 2 ^ 53"
  shows "resampled_dimensions s scale_factor w
           = Inr (large_w, large_h,
                  \<lfloor>real_of_int large_w / real_of_int scale_factor\<rfloor>,
                  \<lfloor>real_of_int large_h / real_of_int scale_factor\<rfloor>)"
  using resampled_dimensions_div[OF assms] by (simp add: floor_divide_of_int_eq)

theorem resampled_dimensions_floor_witness:
  "dimensions slide_ab example_world = Inr (3200, 1600)
   \<and> resampled_dimensions slide_ab 32 example_world = Inr (3200, 1600, 100, 50)
   \<and> resampled_dimensions slide_ab 5000 example_world = Inr (3200, 1600, 0, 0)"
  using resampled_dimensions_floor[of slide_ab example_world 3200 1600 32]
    resampled_dimensions_floor[of slide_ab example_world 3200 1600 5000]
  by (simp add: example_dimensions)

text \<open>
  Without the bound the claim fails: a container that reports a width of \<open>2 ^ 53 + 1\<close>
  gets the scaled width \<open>2 ^ 53\<close> for the scale factor 1, since the quotient is rounded
  to the nearest binary64 number before the floor is taken.
\<close>

lemma wide_truediv: "int_truediv 9007199254740993 1 = Inr (Dyadic 4503599627370496 1)"
  by (rule int_truediv_value[where q = 53])
     (simp_all add: quotient_exponent_def bit_length.simps round_half_even_def Let_def)

lemma one_truediv: "int_truediv 1 1 = Inr (Dyadic 4503599627370496 (- 52))"
  by (rule int_truediv_value[where q = 0])
     (simp_all add: quotient_exponent_def bit_length.simps round_half_even_def Let_def)

theorem resampled_dimensions_floor_counterexample:
  "dimensions slide_wide example_world = Inr (9007199254740993, 1)
   \<and> resampled_dimensions slide_wide 1 example_world
       = Inr (9007199254740993, 1, 9007199254740992, 1)
   \<and> resampled_dimensions slide_wide 1 example_world
       \<noteq> Inr (9007199254740993, 1,
              \<lfloor>real_of_int 9007199254740993 / real_of_int 1\<rfloor>,
              \<lfloor>real_of_int 1 / real_of_int 1\<rfloor>)"
  by (simp add: resampled_dimensions_def then_do_def example_dimensions wide_truediv one_truediv
      math_floor_def)

text \<open>
  Claim C2. Whenever the resampled dimensions \<open>(large_w, large_h, new_w, new_h)\<close> of a
  slide are available, \<^verbatim>\<open>scaled_image_path(scale_factor)\<close> returns the output directory
  joined with \<^verbatim>\<open><name>-<scale_factor>x-<large_w>x<large_h>-<new_w>x<new_h>.png\<close>; for a
  slide of 3200 by 1600 pixels and the scale factor 32 the file name is
  \<^verbatim>\<open><name>-32x-3200x1600-100x50.png\<close>.
\<close>

theorem scaled_image_path_format:
  "(resampled_dimensions s scale_factor w = Inr (large_w, large_h, new_w, new_h) \<longrightarrow>
      scaled_image_path s scale_factor w
        = Inr (os_path_join (processed_path s)
            (name s @ ''-'' @ str_int scale_factor @ ''x-'' @ str_int large_w @ ''x''
               @ str_int large_h @ ''-'' @ str_int new_w @ ''x'' @ str_int new_h @ ''.png'')))
   \<and> (dimensions s w = Inr (3200, 1600) \<longrightarrow>
        scaled_image_path s 32 w
          = Inr (os_path_join (processed_path s) (name s @ ''-32x-3200x1600-100x50.png'')))"
proof (intro conjI impI)
  assume "resampled_dimensions s scale_factor w = Inr (large_w, large_h, new_w, new_h)"
  then show "scaled_image_path s scale_factor w
        = Inr (os_path_join (processed_path s)
            (name s @ ''-'' @ str_int scale_factor @ ''x-'' @ str_int large_w @ ''x''
               @ str_int large_h @ ''-'' @ str_int new_w @ ''x'' @ str_int new_h @ ''.png''))"
    by (rule scaled_image_path_full)
next
  assume d: "dimensions s w = Inr (3200, 1600)"
  have "resampled_dimensions s 32 w = Inr (3200, 1600, 3200 div 32, 1600 div 32)"
    by (rule resampled_dimensions_div[OF d]) simp_all
  then have "resampled_dimensions s 32 w = Inr (3200, 1600, 100, 50)" by simp
  from scaled_image_path_full[OF this]
  show "scaled_image_path s 32 w
          = Inr (os_path_join (processed_path s) (name s @ ''-32x-3200x1600-100x50.png''))"
    by (simp add: str_int_values)
qed

lemma example_processed_path:
  "processed_path slide_ab = ''processed''" "processed_path slide_c = ''processed''"
  "processed_path slide_missing = ''processed''"
  by (simp_all add: slide_ab_def slide_c_def slide_missing_def)

lemma example_resampled:
  "resampled_dimensions slide_ab 32 example_world = Inr (3200, 1600, 100, 50)"
  using resampled_dimensions_div[of slide_ab example_world 3200 1600 32]
  by (simp add: example_dimensions)

theorem scaled_image_path_format_witness:
  "resampled_dimensions slide_ab 32 example_world = Inr (3200, 1600, 100, 50)
   \<and> dimensions slide_ab example_world = Inr (3200, 1600)
   \<and> scaled_image_path slide_ab 32 example_world = Inr ''processed/a-32x-3200x1600-100x50.png''"
  using scaled_image_path_format[of slide_ab 32 example_world 3200 1600 100 50]
  by (simp add: example_resampled example_dimensions example_names str_int_values
      os_path_join_def example_processed_path)

text \<open>
  Claim C5. \<^verbatim>\<open>Slide.name\<close> keeps what stands before the first dot of the base file
  name: for \<^verbatim>\<open>slides/a.b.svs\<close> it is \<^verbatim>\<open>a\<close>, not the stem \<^verbatim>\<open>a.b\<close> that is left when the
  one extension \<^verbatim>\<open>.svs\<close> (what \<^verbatim>\<open>Slide._extension\<close> returns) is stripped.
\<close>

theorem name_of_dotted_stem:
  "name slide_ab = ''a'' \<and> extension slide_ab = ''.svs''
   \<and> ntpath_basename (path slide_ab) = ''a.b.svs''"
  by code_simp

text \<open>
  Claim C9. \<^verbatim>\<open>scaled_image_path\<close> is a function of the slide name, the output
  directory, the scale factor and the resampled dimensions: two slides, in two worlds,
  that agree on these get the same result. It takes the world and returns no world, so
  it writes nothing, and its result does not depend on the directories made or the
  files saved so far: it can be called before the output directory exists.
\<close>

theorem scaled_image_path_pure:
  "(name s' = name s \<and> processed_path s' = processed_path s
      \<and> resampled_dimensions s' scale_factor w' = resampled_dimensions s scale_factor w
    \<longrightarrow> scaled_image_path s' scale_factor w' = scaled_image_path s scale_factor w)
   \<and> scaled_image_path s scale_factor (w\<lparr>made_dirs := ds, saved := fs\<rparr>)
       = scaled_image_path s scale_factor w"
proof (intro conjI impI)
  assume "name s' = name s \<and> processed_path s' = processed_path s
      \<and> resampled_dimensions s' scale_factor w' = resampled_dimensions s scale_factor w"
  then show "scaled_image_path s' scale_factor w' = scaled_image_path s scale_factor w"
    unfolding scaled_image_path_def breadcumb_def by simp
next
  show "scaled_image_path s scale_factor (w\<lparr>made_dirs := ds, saved := fs\<rparr>)
       = scaled_image_path s scale_factor w"
    by (rule scaled_image_path_cong) simp
qed

theorem scaled_image_path_pure_witness:
  "name slide_ab = name slide_ab \<and> processed_path slide_ab = processed_path slide_ab
   \<and> resampled_dimensions slide_ab 32 (snd (save_scaled_image slide_ab 32 example_world))
       = resampled_dimensions slide_ab 32 example_world
   \<and> made_dirs (snd (save_scaled_image slide_ab 32 example_world)) = [''processed'']
   \<and> made_dirs example_world = []
   \<and> scaled_image_path slide_ab 32 (snd (save_scaled_image slide_ab 32 example_world))
       = scaled_image_path slide_ab 32 example_world"
proof -
  have o: "open_slide (snd (save_scaled_image slide_ab 32 example_world)) = open_slide example_world"
    by (rule save_scaled_image_open_slide)
  have r: "resampled_dimensions slide_ab 32 (snd (save_scaled_image slide_ab 32 example_world))
       = resampled_dimensions slide_ab 32 example_world"
    by (rule resampled_dimensions_cong[OF o])
  have d: "made_dirs (snd (save_scaled_image slide_ab 32 example_world)) = [''processed'']"
    by (simp add: save_scaled_image_def makedirs_def img_save_def example_world_def
        example_makedirs_def example_processed_path split: sum.splits)
  have e: "made_dirs example_world = []" by (simp add: example_world_def)
  from scaled_image_path_pure[of slide_ab slide_ab 32
      "snd (save_scaled_image slide_ab 32 example_world)" example_world] r d e
  show ?thesis by simp
qed

text \<open>
  Claim C10. The wildcard branch of \<^verbatim>\<open>Slide._breadcumb\<close> is never taken: a path that
  \<^verbatim>\<open>scaled_image_path\<close> returns is never the wildcard pattern \<^verbatim>\<open><name>*.png\<close> but the
  full name built from the four resampled dimensions, which are integers; and when the
  container cannot be opened, the error of \<^verbatim>\<open>Slide._wsi\<close> is raised instead.
\<close>

theorem breadcumb_wildcard_unreachable:
  "(scaled_image_path s scale_factor w = Inr p \<longrightarrow>
      p \<noteq> os_path_join (processed_path s) (name s @ ''*.png'')
      \<and> (\<exists>large_w large_h new_w new_h.
            resampled_dimensions s scale_factor w = Inr (large_w, large_h, new_w, new_h)
            \<and> p = os_path_join (processed_path s)
                  (name s @ ''-'' @ str_int scale_factor @ ''x-'' @ str_int large_w @ ''x''
                     @ str_int large_h @ ''-'' @ str_int new_w @ ''x'' @ str_int new_h
                     @ ''.png'')))
   \<and> (wsi s w = Inl e \<longrightarrow> scaled_image_path s scale_factor w = Inl e)"
proof (intro conjI impI)
  assume ret: "scaled_image_path s scale_factor w = Inr p"
  then obtain large_w large_h new_w new_h
    where rd: "resampled_dimensions s scale_factor w = Inr (large_w, large_h, new_w, new_h)"
    using scaled_image_path_raises[of s scale_factor w]
    by (cases "resampled_dimensions s scale_factor w") auto
  define rest where "rest = str_int scale_factor @ ''x-'' @ str_int large_w @ ''x''
                     @ str_int large_h @ ''-'' @ str_int new_w @ ''x'' @ str_int new_h @ ''.png''"
  have p: "p = os_path_join (processed_path s) (name s @ ''-'' @ rest)"
    using scaled_image_path_full[OF rd] ret by (simp add: rest_def)
  have full: "os_path_join (processed_path s) (name s @ ''-'' @ rest)
      = (if processed_path s = [] \<or> last (processed_path s) = CHR ''/'' then processed_path s
         else processed_path s @ ''/'') @ name s @ ''-'' @ rest"
    using take1_name_append[of "CHR ''-''" s rest] by (simp add: os_path_join_relative)
  have wild: "os_path_join (processed_path s) (name s @ ''*.png'')
      = (if processed_path s = [] \<or> last (processed_path s) = CHR ''/'' then processed_path s
         else processed_path s @ ''/'') @ name s @ ''*.png''"
    using take1_name_append[of "CHR ''*''" s "''.png''"] by (simp add: os_path_join_relative)
  show "p \<noteq> os_path_join (processed_path s) (name s @ ''*.png'')"
    unfolding p full wild by simp
  show "\<exists>large_w large_h new_w new_h.
            resampled_dimensions s scale_factor w = Inr (large_w, large_h, new_w, new_h)
            \<and> p = os_path_join (processed_path s)
                  (name s @ ''-'' @ str_int scale_factor @ ''x-'' @ str_int large_w @ ''x''
                     @ str_int large_h @ ''-'' @ str_int new_w @ ''x'' @ str_int new_h
                     @ ''.png'')"
    using rd p by (auto simp: rest_def)
next
  assume "wsi s w = Inl e"
  then have "resampled_dimensions s scale_factor w = Inl e"
    by (simp add: resampled_dimensions_def dimensions_def then_do_def)
  then show "scaled_image_path s scale_factor w = Inl e"
    by (rule scaled_image_path_raises)
qed

theorem breadcumb_wildcard_unreachable_witness:
  "scaled_image_path slide_ab 32 example_world = Inr ''processed/a-32x-3200x1600-100x50.png''
   \<and> ''processed/a-32x-3200x1600-100x50.png''
       \<noteq> os_path_join (processed_path slide_ab) (name slide_ab @ ''*.png'')
   \<and> wsi slide_missing example_world
       = Inl (FileNotFoundError (''The wsi path resource doesn'' @ [CHR 0x27] @ ''t exist''))
   \<and> scaled_image_path slide_missing 32 example_world
       = Inl (FileNotFoundError (''The wsi path resource doesn'' @ [CHR 0x27] @ ''t exist''))"
proof -
  have a: "scaled_image_path slide_ab 32 example_world
             = Inr ''processed/a-32x-3200x1600-100x50.png''"
    using scaled_image_path_full[OF example_resampled]
    by (simp add: example_names str_int_values os_path_join_def example_processed_path)
  from breadcumb_wildcard_unreachable[of slide_ab 32 example_world
      "''processed/a-32x-3200x1600-100x50.png''"]
    breadcumb_wildcard_unreachable[of slide_missing 32 example_world _
      "FileNotFoundError (''The wsi path resource doesn'' @ [CHR 0x27] @ ''t exist'')"]
    a example_missing
  show ?thesis by simp
qed

section \<open>The claims about \<^verbatim>\<open>SlideSet\<close>\<close>

lemma example_slides: "slides example_set example_world = Inr [slide_ab, slide_c]"
  by code_simp

lemma example_empty_slides: "slides empty_set example_world = Inr []"
  by code_simp

lemma example_total_slides:
  "total_slides example_set example_world = Inr 2" "total_slides empty_set example_world = Inr 0"
  by (simp_all add: total_slides_def then_do_def example_slides example_empty_slides)

lemma example_slides_dimensions:
  "slides_dimensions example_set example_world
     = Inr [\<lparr>d_wsi = ''a'', d_width = 3200, d_height = 1600, d_size = 5120000\<rparr>,
            \<lparr>d_wsi = ''c'', d_width = 100, d_height = 100, d_size = 10000\<rparr>]"
  by (simp add: slides_dimensions_def then_do_def example_slides example_dimensions example_names)

lemma example_averages:
  "int_truediv 3300 2 = Inr (Dyadic 7256776743321600 (- 42))"
  "int_truediv 1700 2 = Inr (Dyadic 7476679068876800 (- 43))"
  "int_truediv 5130000 2 = Inr (Dyadic 5508295557120000 (- 31))"
  by (rule int_truediv_value[where q = 10],
      simp_all add: quotient_exponent_def bit_length.simps round_half_even_def Let_def,
      rule int_truediv_value[where q = 9],
      simp_all add: quotient_exponent_def bit_length.simps round_half_even_def Let_def,
      rule int_truediv_value[where q = 21],
      simp_all add: quotient_exponent_def bit_length.simps round_half_even_def Let_def)

lemma total_slides_zero: "total_slides ss w = Inr 0 \<Longrightarrow> slides ss w = Inr []"
  by (cases "slides ss w") (simp_all add: total_slides_def then_do_def)

lemma max_width_slide_empty: "slides ss w = Inr [] \<Longrightarrow> max_width_slide ss w = Inl ValueError"
  by (simp add: max_width_slide_def slides_dimensions_def then_do_def max_by_def)

text \<open>
  Claim C3, as amended. For every collection with \<^verbatim>\<open>total_slides == 0\<close>,
  \<^verbatim>\<open>SlideSet.slides_stats\<close> fails with \<^verbatim>\<open>ValueError\<close>: the first extremal statistic
  calls \<^verbatim>\<open>max\<close> on an empty sequence. It returns no value, so no zero, NaN or default
  stands for the averages and the extremal statistics.
\<close>

theorem slides_stats_empty:
  assumes "total_slides ss w = Inr 0"
  shows "slides_stats ss w = Inl ValueError"
  using max_width_slide_empty[OF total_slides_zero[OF assms]] assms
  by (simp add: slides_stats_def then_do_def)

theorem slides_stats_empty_witness:
  "total_slides empty_set example_world = Inr 0
   \<and> slides_stats empty_set example_world = Inl ValueError"
  using slides_stats_empty[of empty_set example_world] by (simp add: example_total_slides)

text \<open>
  The error is not the \<^verbatim>\<open>EmptyCollectionError\<close> of the claim as stated; the source
  has no such exception.
\<close>

theorem slides_stats_empty_counterexample:
  "total_slides empty_set example_world = Inr 0
   \<and> slides_stats empty_set example_world \<noteq> Inl EmptyCollectionError"
  using max_width_slide_empty[OF example_empty_slides]
  by (simp add: example_total_slides slides_stats_def then_do_def)

lemma save_thumbnails_nonempty:
  assumes md: "makedirs (set_processed_path ss) w = Inr w1"
    and sl: "slides ss w1 = Inr (x # xs)" and n0: "0 \<le> n"
  shows "fst (save_thumbnails ss scale_factor n w) = Inl TypeError
         \<and> saved (snd (save_thumbnails ss scale_factor n w)) = saved w"
proof -
  have tot: "total_slides ss w1 = Inr (int (length (x # xs)))"
    by (simp add: total_slides_def then_do_def sl)
  obtain ys where sel:
    "slice_to (x # xs) (if int (length (x # xs)) < n \<or> n = 0 then int (length (x # xs)) else n)
       = x # ys"
  proof (cases "int (length (x # xs)) < n \<or> n = 0")
    case True
    then show ?thesis using that by (simp add: slice_to_def)
  next
    case False
    with n0 have "0 < nat n" by simp
    then obtain k where "nat n = Suc k" by (cases "nat n") auto
    with False n0 show ?thesis using that by (simp add: slice_to_def)
  qed
  have "save_thumbnails ss scale_factor n w = (Inl TypeError, w1)"
    unfolding save_thumbnails_def Let_def md sum.case tot sl
    by (simp only: sel sum.case for_each.simps call_save_thumbnail_def) simp
  then show ?thesis by (simp add: makedirs_reads(2)[OF md])
qed

text \<open>
  Claim C4. \<^verbatim>\<open>SlideSet.save_thumbnails\<close> calls \<^verbatim>\<open>slide.save_thumbnail(scale_factor)\<close>,
  but \<^verbatim>\<open>Slide.save_thumbnail\<close> takes no argument: on the example collection, whose two
  slides are well-formed (\<^verbatim>\<open>save_thumbnail()\<close> itself writes the thumbnail of the first
  one), the call raises \<^verbatim>\<open>TypeError\<close> at the first slide and writes nothing. By
  \<open>save_thumbnails_nonempty\<close> it does so on every collection with a slide, for every
  \<open>0 \<le> n\<close>, once the output directory has been made.
\<close>

theorem save_thumbnails_raises:
  "fst (save_thumbnails example_set 32 0 example_world) = Inl TypeError
   \<and> saved (snd (save_thumbnails example_set 32 0 example_world)) = []
   \<and> fst (save_thumbnail slide_ab example_world) = Inr ()
   \<and> saved (snd (save_thumbnail slide_ab example_world)) = [(''processed/thumbnails/a.png'', ())]"
  by code_simp

text \<open>
  Claim C8. On the example collection the summary record has the ten fixed keys, and
  every extremal entry names its slide and carries its value under the key of the
  measured quantity, except the entry \<^verbatim>\<open>min_size\<close>: \<^verbatim>\<open>SlideSet._min_size_slide\<close> stores
  the minimal size under the key \<^verbatim>\<open>height\<close>, where \<^verbatim>\<open>_max_size_slide\<close> uses \<^verbatim>\<open>size\<close>.
  The three averages are the floats 1650.0, 850.0 and 2565000.0.
\<close>

theorem slides_stats_min_size_key:
  "map_sum id fst (slides_stats example_set example_world) =
     Inr [(''no_of_slides'', PInt 2),
          (''max_width'', PDict [(''slide'', PStr ''a''), (''width'', PInt 3200)]),
          (''max_height'', PDict [(''slide'', PStr ''a''), (''height'', PInt 1600)]),
          (''max_size'', PDict [(''slide'', PStr ''a''), (''size'', PInt 5120000)]),
          (''min_width'', PDict [(''slide'', PStr ''c''), (''width'', PInt 100)]),
          (''min_height'', PDict [(''slide'', PStr ''c''), (''height'', PInt 100)]),
          (''min_size'', PDict [(''slide'', PStr ''c''), (''height'', PInt 10000)]),
          (''avg_width'', PFloat (Dyadic 7256776743321600 (- 42))),
          (''avg_height'', PFloat (Dyadic 7476679068876800 (- 43))),
          (''avg_size'', PFloat (Dyadic 5508295557120000 (- 31)))]"
  by (simp add: slides_stats_def then_do_def example_total_slides example_slides_dimensions
      example_slides example_dimensions example_averages max_by_def min_by_def
      max_width_slide_def max_height_slide_def max_size_slide_def
      min_width_slide_def min_height_slide_def min_size_slide_def
      avg_width_slide_def avg_height_slide_def avg_size_slide_def)

lemma concat_map_if:
  "concat (map (\<lambda>x. if P x then [f x] else []) xs) = map f (filter P xs)"
  by (induction xs) auto

lemma slides_listing:
  assumes "listdir w (slides_path ss) = Inr entries"
  shows "slides ss w
           = Inr (map (\<lambda>e. \<lparr>path = os_path_join (slides_path ss) e,
                               processed_path = set_processed_path ss\<rparr>)
                    (filter (\<lambda>e. snd (os_path_splitext e) \<in> set (valid_wsi_extensions ss))
                       entries))"
  by (simp add: slides_def then_do_def assms concat_map_if)

lemma os_path_join_inject:
  assumes "CHR ''/'' \<notin> set e" and "CHR ''/'' \<notin> set e'"
  shows "os_path_join a e' = os_path_join a e \<longleftrightarrow> e' = e"
  using take1_no_slash[OF assms(1)] take1_no_slash[OF assms(2)]
  by (simp add: os_path_join_relative)

lemma length_filter_eq_distinct:
  assumes "distinct xs" and "e \<in> set xs"
  shows "length (filter (\<lambda>x. P x \<and> x = e) xs) = (if P e then 1 else 0)"
  using assms by (induction xs) (auto simp: filter_empty_conv)

text \<open>
  Claim C6. When the directory can be listed, and its entries are distinct file names
  (no slash in them, as \<^verbatim>\<open>os.listdir\<close> returns them), \<^verbatim>\<open>SlideSet.slides\<close> holds
  exactly one \<^verbatim>\<open>Slide\<close> for every entry whose extension
  (\<^verbatim>\<open>os.path.splitext(entry)[1]\<close>) is in the valid set and none for any other entry;
  every \<^verbatim>\<open>Slide\<close> it holds comes from an entry and has the output directory of the set.
\<close>

theorem slides_by_extension:
  assumes ls: "listdir w (slides_path ss) = Inr entries"
    and dist: "distinct entries"
    and names: "\<forall>e \<in> set entries. CHR ''/'' \<notin> set e"
  shows "\<exists>sl. slides ss w = Inr sl
     \<and> (\<forall>e \<in> set entries.
           length (filter (\<lambda>s. path s = os_path_join (slides_path ss) e) sl)
             = (if snd (os_path_splitext e) \<in> set (valid_wsi_extensions ss) then 1 else 0))
     \<and> (\<forall>s \<in> set sl. processed_path s = set_processed_path ss
           \<and> (\<exists>e \<in> set entries. path s = os_path_join (slides_path ss) e
                 \<and> snd (os_path_splitext e) \<in> set (valid_wsi_extensions ss)))"
proof -
  define P where "P = (\<lambda>e. snd (os_path_splitext e) \<in> set (valid_wsi_extensions ss))"
  define mk where "mk = (\<lambda>e. \<lparr>path = os_path_join (slides_path ss) e,
                               processed_path = set_processed_path ss\<rparr>)"
  define sl where "sl = map mk (filter P entries)"
  have sl: "slides ss w = Inr sl"
    using slides_listing[OF ls] by (simp add: sl_def mk_def P_def)
  have count: "length (filter (\<lambda>s. path s = os_path_join (slides_path ss) e) sl)
                 = (if P e then 1 else 0)" if e: "e \<in> set entries" for e
  proof -
    have "filter (\<lambda>s. path s = os_path_join (slides_path ss) e) sl
            = map mk (filter (\<lambda>e'. os_path_join (slides_path ss) e'
                                      = os_path_join (slides_path ss) e) (filter P entries))"
      by (simp add: sl_def filter_map comp_def mk_def)
    also have "filter (\<lambda>e'. os_path_join (slides_path ss) e' = os_path_join (slides_path ss) e)
                 (filter P entries) = filter (\<lambda>e'. P e' \<and> e' = e) entries"
      using names e by (auto simp: os_path_join_inject intro!: filter_cong)
    finally show ?thesis
      using length_filter_eq_distinct[OF dist e, of P] by simp
  qed
  have origin: "processed_path s = set_processed_path ss
           \<and> (\<exists>e \<in> set entries. path s = os_path_join (slides_path ss) e \<and> P e)"
    if "s \<in> set sl" for s
    using that by (auto simp: sl_def mk_def)
  show ?thesis
    using sl count origin unfolding P_def by blast
qed

lemma example_extensions:
  "snd (os_path_splitext ''a.b.svs'') = ''.svs''"
  "snd (os_path_splitext ''notes.txt'') = ''.txt''"
  "snd (os_path_splitext ''c.svs'') = ''.svs''"
  by code_simp+

theorem slides_by_extension_witness:
  "listdir example_world (slides_path example_set) = Inr [''a.b.svs'', ''notes.txt'', ''c.svs'']
   \<and> distinct [''a.b.svs'', ''notes.txt'', ''c.svs'']
   \<and> (\<exists>sl. slides example_set example_world = Inr sl
         \<and> length (filter (\<lambda>s. path s = ''slides/a.b.svs'') sl) = 1
         \<and> length (filter (\<lambda>s. path s = ''slides/notes.txt'') sl) = 0
         \<and> length (filter (\<lambda>s. path s = ''slides/c.svs'') sl) = 1)"
proof -
  have ls: "listdir example_world (slides_path example_set)
              = Inr [''a.b.svs'', ''notes.txt'', ''c.svs'']"
    by (simp add: listdir_def example_world_def example_set_def example_listdir_def)
  have dist: "distinct [''a.b.svs'', ''notes.txt'', ''c.svs'']" by simp
  have names: "\<forall>e \<in> set [''a.b.svs'', ''notes.txt'', ''c.svs'']. CHR ''/'' \<notin> set e" by simp
  have sp: "slides_path example_set = ''slides''"
    and ve: "valid_wsi_extensions example_set = [''.svs'']"
    by (simp_all add: example_set_def)
  from slides_by_extension[OF ls dist names]
  obtain sl where "slides example_set example_world = Inr sl"
    and "\<forall>e \<in> set [''a.b.svs'', ''notes.txt'', ''c.svs''].
           length (filter (\<lambda>s. path s = os_path_join (slides_path example_set) e) sl)
             = (if snd (os_path_splitext e) \<in> set (valid_wsi_extensions example_set)
                then 1 else 0)"
    by blast
  then have "slides example_set example_world = Inr sl
         \<and> length (filter (\<lambda>s. path s = ''slides/a.b.svs'') sl) = 1
         \<and> length (filter (\<lambda>s. path s = ''slides/notes.txt'') sl) = 0
         \<and> length (filter (\<lambda>s. path s = ''slides/c.svs'') sl) = 1"
    by (simp add: sp ve example_extensions os_path_join_def)
  then show ?thesis using ls dist by blast
qed



lemma save_rescaled_slides_makedirs_raises:
  assumes "makedirs (set_processed_path ss) w = Inl e"
  shows "save_rescaled_slides ss n w = (Inl e, w)"
  by (simp add: save_rescaled_slides_def assms)








text \<open>
  With the empty path as output directory, \<^verbatim>\<open>os.makedirs\<close> raises and no slide is
  processed.
\<close>

lemma save_rescaled_slides_unwritable:
  "save_rescaled_slides unwritable_set 0 example_world = (Inl (FileNotFoundError []), example_world)"
  by (rule save_rescaled_slides_makedirs_raises)
     (simp add: makedirs_def unwritable_set_def example_world_def example_makedirs_def)

end
